theory Spec2Isabelle
  imports Main
begin

section \<open>Values, objects and the heap\<close>

text \<open>
  The library (\<^verbatim>\<open>src/error.ts\<close>, \<^verbatim>\<open>src/core.ts\<close>, \<^verbatim>\<open>src/utils.ts\<close>) works on
  arbitrary JavaScript values and several of its guarantees are about reference identity.
  A value is therefore either a primitive or a reference into a heap of objects; two
  references are the same object exactly when their addresses are equal.
  \<open>Number\<close> stands for the integer-valued numbers and \<open>NaN\<close> for the not-a-number
  value (it matters for truthiness).
\<close>

type_synonym addr = nat

datatype jsval =
    Undefined
  | Null
  | Bool bool
  | Number int
  | NaN
  | Str string
  | Ref addr

text \<open>
  The objects the library can tell apart:
  \<^item> \<open>SafeErrorObj message cause code\<close>: an instance of \<^verbatim>\<open>SafeError\<close> (and so of
    \<^verbatim>\<open>Error\<close>); an absent \<^verbatim>\<open>cause\<close> or \<^verbatim>\<open>code\<close> is \<open>Undefined\<close>;
  \<^item> \<open>ErrorObj message\<close>: any other instance of the host's \<^verbatim>\<open>Error\<close>;
  \<^item> \<open>ArrayObj elems\<close>: an array; the outcome tuples are arrays of three elements;
  \<^item> \<open>OtherObj props\<close>: any other object, with its own properties.
\<close>

datatype obj =
    SafeErrorObj string jsval jsval
  | ErrorObj string
  | ArrayObj "jsval list"
  | OtherObj "(string \<times> jsval) list"

text \<open>
  The heap is the list of the objects allocated so far; the address of an object is its
  index. Allocation appends, so a new object never shares its address with a live one.
\<close>

type_synonym heap = "obj list"

definition lookup :: "heap \<Rightarrow> addr \<Rightarrow> obj option" where
  "lookup h a = (if a < length h then Some (h ! a) else None)"

definition alloc :: "obj \<Rightarrow> heap \<Rightarrow> jsval \<times> heap" where
  "alloc ob h = (Ref (length h), h @ [ob])"

text \<open>
  A call of user code or of the library either returns a value or throws one.
  A promise, seen once it has had all the time it needs, is fulfilled, rejected or
  stays pending for ever.
\<close>

datatype 'a outcome = Returned 'a | Thrown jsval

datatype promise = Fulfilled jsval | Rejected jsval | Pending

subsection \<open>Host operations the library relies on\<close>

text \<open>JavaScript truthiness, as tested by \<^verbatim>\<open>if (err)\<close> and \<^verbatim>\<open>if (ok)\<close>.\<close>

fun truthy :: "jsval \<Rightarrow> bool" where
  "truthy Undefined = False"
| "truthy Null = False"
| "truthy (Bool b) = b"
| "truthy (Number n) = (n \<noteq> 0)"
| "truthy NaN = False"
| "truthy (Str s) = (s \<noteq> [])"
| "truthy (Ref a) = True"

text \<open>\<^verbatim>\<open>value instanceof SafeError\<close> and \<^verbatim>\<open>value instanceof Error\<close>.\<close>

definition instanceof_SafeError :: "heap \<Rightarrow> jsval \<Rightarrow> bool" where
  "instanceof_SafeError h v =
     (case v of
        Ref a \<Rightarrow> (case lookup h a of Some (SafeErrorObj m c k) \<Rightarrow> True | _ \<Rightarrow> False)
      | _ \<Rightarrow> False)"

definition instanceof_Error :: "heap \<Rightarrow> jsval \<Rightarrow> bool" where
  "instanceof_Error h v =
     (case v of
        Ref a \<Rightarrow>
          (case lookup h a of
             Some (SafeErrorObj m c k) \<Rightarrow> True
           | Some (ErrorObj m) \<Rightarrow> True
           | _ \<Rightarrow> False)
      | _ \<Rightarrow> False)"

text \<open>
  The property read \<^verbatim>\<open>value.message\<close>: the message of an error object, the own
  property of another object, \<open>Undefined\<close> where there is none. Reading a property of
  \<^verbatim>\<open>null\<close> or \<^verbatim>\<open>undefined\<close> is a host TypeError (\<open>None\<close>).
\<close>

definition get_message :: "heap \<Rightarrow> jsval \<Rightarrow> jsval option" where
  "get_message h v =
     (case v of
        Undefined \<Rightarrow> None
      | Null \<Rightarrow> None
      | Ref a \<Rightarrow>
          (case lookup h a of
             Some (SafeErrorObj m c k) \<Rightarrow> Some (Str m)
           | Some (ErrorObj m) \<Rightarrow> Some (Str m)
           | Some (OtherObj ps) \<Rightarrow>
               (case map_of ps ''message'' of Some x \<Rightarrow> Some x | None \<Rightarrow> Some Undefined)
           | _ \<Rightarrow> Some Undefined)
      | _ \<Rightarrow> Some Undefined)"

text \<open>Decimal text of an integer, as the host prints an integer-valued number.\<close>

fun digit_char :: "nat \<Rightarrow> char" where
  "digit_char n = ''0123456789'' ! n"

fun show_nat :: "nat \<Rightarrow> string" where
  "show_nat n = (if n < 10 then [digit_char n] else show_nat (n div 10) @ [digit_char (n mod 10)])"

definition show_int :: "int \<Rightarrow> string" where
  "show_int i = (if i < 0 then CHR ''-'' # show_nat (nat (- i)) else show_nat (nat i))"

text \<open>
  \<^verbatim>\<open>String(value)\<close>. On a primitive the host fixes the text. On an object the host runs
  the object's own conversion, which is code the library does not see: it is the
  parameter \<open>obj_text\<close>, giving the text or \<open>None\<close> when the conversion throws.
  The text of \<open>Number n\<close> is the decimal text of \<open>n\<close>, which is the host's for the
  integers a double holds exactly and prints in full (below \<open>2 ^ 53\<close> in absolute
  value); for larger numbers the host rounds and, from \<open>10 ^ 21\<close> on, prints an
  exponent, which this text does not show.
\<close>

type_synonym obj_text = "heap \<Rightarrow> addr \<Rightarrow> string option"

fun js_String :: "obj_text \<Rightarrow> heap \<Rightarrow> jsval \<Rightarrow> string option" where
  "js_String ot h Undefined = Some ''undefined''"
| "js_String ot h Null = Some ''null''"
| "js_String ot h (Bool b) = Some (if b then ''true'' else ''false'')"
| "js_String ot h (Number n) = Some (show_int n)"
| "js_String ot h NaN = Some ''NaN''"
| "js_String ot h (Str s) = Some s"
| "js_String ot h (Ref a) = ot h a"

section \<open>The normalized error (\<^verbatim>\<open>src/error.ts\<close>)\<close>

text \<open>
  \<^verbatim>\<open>new SafeError(message, options)\<close> allocates a fresh instance holding the message,
  \<^verbatim>\<open>options?.cause\<close> and \<^verbatim>\<open>options?.code\<close>.
\<close>

definition new_SafeError :: "string \<Rightarrow> jsval \<Rightarrow> jsval \<Rightarrow> heap \<Rightarrow> jsval \<times> heap" where
  "new_SafeError message cause code h = alloc (SafeErrorObj message cause code) h"

text \<open>
  \<^verbatim>\<open>SafeError.from(value)\<close>, branch for branch: an instance of \<^verbatim>\<open>SafeError\<close> is
  returned as it is; an instance of \<^verbatim>\<open>Error\<close> gives a new error with its message and
  itself as cause; a string gives a new error with that message and no cause; anything
  else gives a new error whose message is \<^verbatim>\<open>String(value)\<close>, or \<^verbatim>\<open>'Unknown error'\<close>
  when that conversion throws, with the value as cause.
\<close>

definition SafeError_from :: "obj_text \<Rightarrow> jsval \<Rightarrow> heap \<Rightarrow> jsval \<times> heap" where
  "SafeError_from ot v h =
     (if instanceof_SafeError h v then (v, h)
      else if instanceof_Error h v then
        (case get_message h v of
           Some (Str m) \<Rightarrow> new_SafeError m v Undefined h
         | _ \<Rightarrow> new_SafeError [] v Undefined h)
      else
        (case v of
           Str s \<Rightarrow> new_SafeError s Undefined Undefined h
         | _ \<Rightarrow>
             (let message = (case js_String ot h v of Some s \<Rightarrow> s | None \<Rightarrow> ''Unknown error'')
              in new_SafeError message v Undefined h)))"

section \<open>The wrappers (\<^verbatim>\<open>src/core.ts\<close>)\<close>

text \<open>
  An error transformer is user code: called with the raw failure it returns the error to
  report, or throws; it may allocate. The parameter is optional in the source.
\<close>

type_synonym transformer = "jsval \<Rightarrow> heap \<Rightarrow> jsval outcome \<times> heap"

text \<open>
  The expression every catch block repeats:
  \<^verbatim>\<open>errorTransformer ? errorTransformer(err) : SafeError.from(err)\<close>.
\<close>

definition normalize :: "obj_text \<Rightarrow> transformer option \<Rightarrow> jsval \<Rightarrow> heap \<Rightarrow> jsval outcome \<times> heap" where
  "normalize ot t err h =
     (case t of
        Some errorTransformer \<Rightarrow> errorTransformer err h
      | None \<Rightarrow> (case SafeError_from ot err h of (error, h') \<Rightarrow> (Returned error, h')))"

text \<open>The array literals \<^verbatim>\<open>[true, null, data]\<close> and \<^verbatim>\<open>[false, error, null]\<close>.\<close>

definition success_tuple :: "jsval \<Rightarrow> heap \<Rightarrow> jsval \<times> heap" where
  "success_tuple data h = alloc (ArrayObj [Bool True, Null, data]) h"

definition failure_tuple :: "jsval \<Rightarrow> heap \<Rightarrow> jsval \<times> heap" where
  "failure_tuple error h = alloc (ArrayObj [Bool False, error, Null]) h"

text \<open>
  \<^verbatim>\<open>sync(fn, errorTransformer)\<close>. The function \<open>fn\<close> is user code run on the current
  heap. A throw of the transformer inside the catch block is not caught by anything.
\<close>

definition sync :: "obj_text \<Rightarrow> (heap \<Rightarrow> jsval outcome \<times> heap) \<Rightarrow> transformer option \<Rightarrow> heap
    \<Rightarrow> jsval outcome \<times> heap" where
  "sync ot fn t h =
     (case fn h of
        (Returned result, h1) \<Rightarrow>
          (case success_tuple result h1 of (r, h2) \<Rightarrow> (Returned r, h2))
      | (Thrown err, h1) \<Rightarrow>
          (case normalize ot t err h1 of
             (Returned error, h2) \<Rightarrow>
               (case failure_tuple error h2 of (r, h3) \<Rightarrow> (Returned r, h3))
           | (Thrown x, h2) \<Rightarrow> (Thrown x, h2)))"

text \<open>
  \<^verbatim>\<open>to(promise, errorTransformer)\<close>, an async function: its result is the promise it
  returns. \<open>h\<close> is the heap when the \<^verbatim>\<open>await\<close> resumes; while the awaited promise stays
  pending, so does the result. A throw inside the catch block rejects the result.
\<close>

definition to :: "obj_text \<Rightarrow> promise \<Rightarrow> transformer option \<Rightarrow> heap \<Rightarrow> promise \<times> heap" where
  "to ot p t h =
     (case p of
        Fulfilled data \<Rightarrow>
          (case success_tuple data h of (r, h1) \<Rightarrow> (Fulfilled r, h1))
      | Rejected err \<Rightarrow>
          (case normalize ot t err h of
             (Returned error, h1) \<Rightarrow>
               (case failure_tuple error h1 of (r, h2) \<Rightarrow> (Fulfilled r, h2))
           | (Thrown x, h1) \<Rightarrow> (Rejected x, h1))
      | Pending \<Rightarrow> (Pending, h))"

text \<open>
  \<^verbatim>\<open>cb(fn, errorTransformer)\<close>. The adapter \<open>fn\<close> is user code that is handed the
  legacy callback. What it does with it is a tree:
  \<^item> \<open>Invoke err result k\<close>: it calls \<^verbatim>\<open>callback(err, result)\<close> and goes on as \<open>k\<close>
    says, according to whether that call returned or threw;
  \<^item> \<open>Return later\<close>: the running call (or task) ends normally; \<open>later\<close> is what
    the tasks it has scheduled do afterwards;
  \<^item> \<open>Raise x later\<close>: the running call (or task) throws \<open>x\<close>;
  \<^item> \<open>Idle\<close>: it ends and nothing happens any more.
  The objects it passes to the callback are already in the heap.
\<close>

datatype adapter =
    Idle
  | Return adapter
  | Raise jsval adapter
  | Invoke jsval jsval "unit outcome \<Rightarrow> adapter"

text \<open>
  The promise \<^verbatim>\<open>new Promise((resolve) => ...)\<close> while the adapter runs: its state, the
  heap at the moment it settled, and the current heap. \<^verbatim>\<open>resolve\<close> settles a pending
  promise and does nothing to a settled one; a throw of the executor rejects a pending
  promise and is dropped by a settled one.
\<close>

type_synonym cb_state = "promise \<times> heap \<times> heap"

definition resolve :: "jsval \<Rightarrow> cb_state \<Rightarrow> cb_state" where
  "resolve v st =
     (case st of (p, snap, h) \<Rightarrow> (if p = Pending then (Fulfilled v, h, h) else (p, snap, h)))"

definition reject :: "jsval \<Rightarrow> cb_state \<Rightarrow> cb_state" where
  "reject x st =
     (case st of (p, snap, h) \<Rightarrow> (if p = Pending then (Rejected x, h, h) else (p, snap, h)))"

text \<open>
  The callback \<^verbatim>\<open>(err, result) => { if (err) ... else ... }\<close>. The tuple is built
  before \<^verbatim>\<open>resolve\<close> is called, also when the promise has settled already.
\<close>

definition callback :: "obj_text \<Rightarrow> transformer option \<Rightarrow> jsval \<Rightarrow> jsval \<Rightarrow> cb_state
    \<Rightarrow> unit outcome \<times> cb_state" where
  "callback ot t err result st =
     (case st of (p, snap, h) \<Rightarrow>
        (if truthy err then
           (case normalize ot t err h of
              (Returned error, h1) \<Rightarrow>
                (case failure_tuple error h1 of (r, h2) \<Rightarrow> (Returned (), resolve r (p, snap, h2)))
            | (Thrown x, h1) \<Rightarrow> (Thrown x, (p, snap, h1)))
         else
           (case success_tuple result h of (r, h1) \<Rightarrow> (Returned (), resolve r (p, snap, h1)))))"

text \<open>
  The call \<^verbatim>\<open>fn(callback)\<close> inside the \<^verbatim>\<open>try\<close>: it runs the adapter up to the end
  of the call and gives how the call ended, what is left for later tasks, and the state.
\<close>

primrec call_fn :: "(jsval \<Rightarrow> jsval \<Rightarrow> cb_state \<Rightarrow> unit outcome \<times> cb_state) \<Rightarrow> adapter \<Rightarrow> cb_state
    \<Rightarrow> unit outcome \<times> adapter \<times> cb_state" where
  "call_fn c Idle st = (Returned (), Idle, st)"
| "call_fn c (Return later) st = (Returned (), later, st)"
| "call_fn c (Raise x later) st = (Thrown x, later, st)"
| "call_fn c (Invoke err result k) st =
     (case c err result st of (res, st1) \<Rightarrow> call_fn c (k res) st1)"

text \<open>
  The tasks that run after the executor has returned. A throw there, of the adapter or
  of the callback, goes to the host and not to the promise.
\<close>

primrec run_later :: "(jsval \<Rightarrow> jsval \<Rightarrow> cb_state \<Rightarrow> unit outcome \<times> cb_state) \<Rightarrow> adapter \<Rightarrow> cb_state
    \<Rightarrow> cb_state" where
  "run_later c Idle st = st"
| "run_later c (Return later) st = run_later c later st"
| "run_later c (Raise x later) st = run_later c later st"
| "run_later c (Invoke err result k) st =
     (case c err result st of (res, st1) \<Rightarrow> run_later c (k res) st1)"

text \<open>
  The executor: \<^verbatim>\<open>try { fn(callback) } catch (err) { ... resolve([false, error, null]) }\<close>.
  The result of \<open>cb\<close> is the state of the promise with the heap at the moment it settled
  (the final heap when it never settles).
\<close>

definition executor :: "obj_text \<Rightarrow> adapter \<Rightarrow> transformer option \<Rightarrow> cb_state \<Rightarrow> adapter \<times> cb_state" where
  "executor ot fn t st =
     (case call_fn (callback ot t) fn st of
        (Returned u, later, st1) \<Rightarrow> (later, st1)
      | (Thrown err, later, (p, snap, h1)) \<Rightarrow>
          (case normalize ot t err h1 of
             (Returned error, h2) \<Rightarrow>
               (case failure_tuple error h2 of (r, h3) \<Rightarrow> (later, resolve r (p, snap, h3)))
           | (Thrown x, h2) \<Rightarrow> (later, reject x (p, snap, h2))))"

definition cb :: "obj_text \<Rightarrow> adapter \<Rightarrow> transformer option \<Rightarrow> heap \<Rightarrow> promise \<times> heap" where
  "cb ot fn t h =
     (case executor ot fn t (Pending, h, h) of
        (later, st1) \<Rightarrow>
          (case run_later (callback ot t) later st1 of
             (p, snap, h') \<Rightarrow> (p, if p = Pending then h' else snap)))"

section \<open>The combinators (\<^verbatim>\<open>src/utils.ts\<close>)\<close>

text \<open>
  The destructuring \<^verbatim>\<open>const [ok, err, data] = result\<close> of an array; a missing element
  reads as \<open>Undefined\<close>. The combinators are declared on outcome tuples, which are arrays;
  \<open>None\<close> stands for an argument that is no array.
\<close>

definition elem :: "jsval list \<Rightarrow> nat \<Rightarrow> jsval" where
  "elem xs i = (if i < length xs then xs ! i else Undefined)"

definition destructure :: "heap \<Rightarrow> jsval \<Rightarrow> (jsval \<times> jsval \<times> jsval) option" where
  "destructure h v =
     (case v of
        Ref a \<Rightarrow>
          (case lookup h a of
             Some (ArrayObj xs) \<Rightarrow> Some (elem xs 0, elem xs 1, elem xs 2)
           | _ \<Rightarrow> None)
      | _ \<Rightarrow> None)"

text \<open>
  \<^verbatim>\<open>or(result, defaultValue)\<close> and \<^verbatim>\<open>map(result, fn)\<close>. The function \<open>fn\<close> is user
  code; a throw of it is not caught.
\<close>

definition or_result :: "jsval \<Rightarrow> jsval \<Rightarrow> heap \<Rightarrow> jsval option" where
  "or_result result defaultValue h =
     (case destructure h result of
        Some (ok, err, data) \<Rightarrow> Some (if truthy ok then data else defaultValue)
      | None \<Rightarrow> None)"

definition map_result :: "jsval \<Rightarrow> (jsval \<Rightarrow> heap \<Rightarrow> jsval outcome \<times> heap) \<Rightarrow> heap
    \<Rightarrow> (jsval outcome \<times> heap) option" where
  "map_result result fn h =
     (case destructure h result of
        Some (ok, err, data) \<Rightarrow>
          (if truthy ok then
             (case fn data h of
                (Returned u, h1) \<Rightarrow>
                  (case success_tuple u h1 of (r, h2) \<Rightarrow> Some (Returned r, h2))
              | (Thrown x, h1) \<Rightarrow> Some (Thrown x, h1))
           else (case failure_tuple err h of (r, h1) \<Rightarrow> Some (Returned r, h1)))
      | None \<Rightarrow> None)"

text \<open>
  \<^verbatim>\<open>pipe(initial, ...fns)\<close>. A step is user code: called with the current value it
  throws, or returns a promise; the heap it gives back is the heap when the \<^verbatim>\<open>await\<close>
  resumes. The loop threads the current value; a rejection and a throw both end in the
  catch block, which always uses \<^verbatim>\<open>SafeError.from\<close>. The last component of the result
  lists the indices of the steps that were called, in the order of the calls: it is an
  observation of the run, \<open>i\<close> being the index of the next step.
\<close>

type_synonym step = "jsval \<Rightarrow> heap \<Rightarrow> promise outcome \<times> heap"

definition pipe_catch :: "obj_text \<Rightarrow> jsval \<Rightarrow> heap \<Rightarrow> promise \<times> heap" where
  "pipe_catch ot err h =
     (case SafeError_from ot err h of
        (error, h1) \<Rightarrow> (case failure_tuple error h1 of (r, h2) \<Rightarrow> (Fulfilled r, h2)))"

fun pipe_loop :: "obj_text \<Rightarrow> nat \<Rightarrow> jsval \<Rightarrow> step list \<Rightarrow> heap \<Rightarrow> promise \<times> heap \<times> nat list" where
  "pipe_loop ot i current [] h =
     (case success_tuple current h of (r, h1) \<Rightarrow> (Fulfilled r, h1, []))"
| "pipe_loop ot i current (fn # fns) h =
     (case fn current h of
        (Returned (Fulfilled v), h1) \<Rightarrow>
          (case pipe_loop ot (Suc i) v fns h1 of (p, h2, calls) \<Rightarrow> (p, h2, i # calls))
      | (Returned (Rejected err), h1) \<Rightarrow>
          (case pipe_catch ot err h1 of (p, h2) \<Rightarrow> (p, h2, [i]))
      | (Returned Pending, h1) \<Rightarrow> (Pending, h1, [i])
      | (Thrown err, h1) \<Rightarrow>
          (case pipe_catch ot err h1 of (p, h2) \<Rightarrow> (p, h2, [i])))"

definition pipe :: "obj_text \<Rightarrow> jsval \<Rightarrow> step list \<Rightarrow> heap \<Rightarrow> promise \<times> heap \<times> nat list" where
  "pipe ot initial fns h = pipe_loop ot 0 initial fns h"

text \<open>
  \<^verbatim>\<open>format(result)\<close> and \<^verbatim>\<open>parse(str)\<close>. \<^verbatim>\<open>JSON.stringify\<close> and
  \<^verbatim>\<open>JSON.parse\<close> belong to the host and are parameters: the first gives a text, gives
  \<^verbatim>\<open>undefined\<close> (which the template literal prints as such) or throws; the second
  returns the decoded value, allocating what it needs, or throws.
\<close>

datatype stringified = Text string | NoText | Fails

type_synonym stringify = "jsval \<Rightarrow> heap \<Rightarrow> stringified"

type_synonym json_parse = "string \<Rightarrow> heap \<Rightarrow> jsval outcome \<times> heap"

datatype format_error = NotAnArray | StringifyThrows | NoMessage

definition format :: "obj_text \<Rightarrow> stringify \<Rightarrow> jsval \<Rightarrow> heap \<Rightarrow> format_error + string" where
  "format ot enc result h =
     (case destructure h result of
        None \<Rightarrow> Inl NotAnArray
      | Some (ok, err, data) \<Rightarrow>
          (if truthy ok then
             (case enc data h of
                Text s \<Rightarrow> Inr (''[OK] data: '' @ s)
              | NoText \<Rightarrow> Inr (''[OK] data: '' @ ''undefined'')
              | Fails \<Rightarrow> Inl StringifyThrows)
           else
             (case get_message h err of
                None \<Rightarrow> Inl NoMessage
              | Some m \<Rightarrow>
                  (case js_String ot h m of
                     Some s \<Rightarrow> Inr (''[ERR] error: '' @ s)
                   | None \<Rightarrow> Inl NoMessage))))"

definition startsWith :: "string \<Rightarrow> string \<Rightarrow> bool" where
  "startsWith str p = (take (length p) str = p)"

definition slice :: "string \<Rightarrow> nat \<Rightarrow> string" where
  "slice str n = drop n str"

definition parse :: "json_parse \<Rightarrow> string \<Rightarrow> heap \<Rightarrow> jsval outcome \<times> heap" where
  "parse dec str h =
     (if startsWith str ''[OK] data: '' then
        (case dec (slice str (length ''[OK] data: '')) h of
           (Returned data, h1) \<Rightarrow>
             (case success_tuple data h1 of (r, h2) \<Rightarrow> (Returned r, h2))
         | (Thrown x, h1) \<Rightarrow> (Thrown x, h1))
      else if startsWith str ''[ERR] error: '' then
        (case new_SafeError (slice str (length ''[ERR] error: '')) Undefined Undefined h of
           (error, h1) \<Rightarrow>
             (case failure_tuple error h1 of (r, h2) \<Rightarrow> (Returned r, h2)))
      else
        (case alloc (ErrorObj (''Invalid SafeResult format: '' @ str)) h of
           (e, h1) \<Rightarrow> (Thrown e, h1)))"

section \<open>Small programs used at concrete inputs\<close>

text \<open>
  The conversion an object inherits when it defines none of its own, and the user
  functions \<^verbatim>\<open>() => v\<close>, \<^verbatim>\<open>() => { throw v }\<close>, \<^verbatim>\<open>x => x\<close> and the transformer
  \<^verbatim>\<open>err => { throw err }\<close>.
\<close>

definition object_text :: obj_text where
  "object_text h a = Some ''[object Object]''"

definition returns :: "jsval \<Rightarrow> heap \<Rightarrow> jsval outcome \<times> heap" where
  "returns v h = (Returned v, h)"

definition throws :: "jsval \<Rightarrow> heap \<Rightarrow> jsval outcome \<times> heap" where
  "throws v h = (Thrown v, h)"

definition identity_fn :: "jsval \<Rightarrow> heap \<Rightarrow> jsval outcome \<times> heap" where
  "identity_fn x h = (Returned x, h)"


text \<open>
  The steps \<^verbatim>\<open>async a => a + 1\<close>, \<^verbatim>\<open>b => { throw new Error(m) }\<close> and
  \<^verbatim>\<open>() => Promise.reject(x)\<close>.
\<close>

definition add_one :: step where
  "add_one value h =
     (case value of
        Number n \<Rightarrow> (Returned (Fulfilled (Number (n + 1))), h)
      | _ \<Rightarrow> (Returned (Fulfilled NaN), h))"

definition throw_error :: "string \<Rightarrow> step" where
  "throw_error m value h = (Thrown (Ref (length h)), h @ [ErrorObj m])"

definition reject_with :: "jsval \<Rightarrow> step" where
  "reject_with x value h = (Returned (Rejected x), h)"

text \<open>
  The transformers \<^verbatim>\<open>err => null\<close> and
  \<^verbatim>\<open>err => { if (typeof err === 'string') return 'bad'; throw err }\<close>, and the adapter
  \<^verbatim>\<open>(done) => done(err, result)\<close>, through which a throw of the callback passes.
\<close>

definition null_transformer :: transformer where
  "null_transformer err h = (Returned Null, h)"


definition done_with :: "jsval \<Rightarrow> jsval \<Rightarrow> adapter" where
  "done_with err result =
     Invoke err result (\<lambda>res. case res of Returned u \<Rightarrow> Idle | Thrown x \<Rightarrow> Raise x Idle)"

text \<open>
  An instance of the host's \<^verbatim>\<open>JSON.stringify\<close> and \<^verbatim>\<open>JSON.parse\<close> for the
  integer-valued numbers: the text of such a number is its decimal text, and a decimal
  text decodes to its number. It is only used on numbers; on other values and texts the
  host does more than this instance shows.
\<close>

definition digit_value :: "char \<Rightarrow> nat option" where
  "digit_value c =
     map_of [(CHR ''0'', 0), (CHR ''1'', 1), (CHR ''2'', 2), (CHR ''3'', 3), (CHR ''4'', 4),
             (CHR ''5'', 5), (CHR ''6'', 6), (CHR ''7'', 7), (CHR ''8'', 8), (CHR ''9'', 9)] c"

fun read_digits :: "nat \<Rightarrow> string \<Rightarrow> nat option" where
  "read_digits acc [] = Some acc"
| "read_digits acc (c # cs) =
     (case digit_value c of Some d \<Rightarrow> read_digits (10 * acc + d) cs | None \<Rightarrow> None)"

definition read_int :: "string \<Rightarrow> int option" where
  "read_int s =
     (case s of
        [] \<Rightarrow> None
      | c # cs \<Rightarrow>
          (if c = CHR ''-'' then
             (if cs = [] then None else map_option (\<lambda>n. - int n) (read_digits 0 cs))
           else map_option int (read_digits 0 s)))"

definition int_stringify :: stringify where
  "int_stringify v h = (case v of Number n \<Rightarrow> Text (show_int n) | _ \<Rightarrow> NoText)"

definition int_json_parse :: json_parse where
  "int_json_parse s h =
     (case read_int s of
        Some n \<Rightarrow> (Returned (Number n), h)
      | None \<Rightarrow> (Thrown (Ref (length h)), h @ [ErrorObj ''Unexpected token'']))"

section \<open>Notions used to state the properties\<close>

text \<open>
  \<open>all_fulfil current fns h\<close>: every step of \<open>fns\<close>, called in order, each on the value
  of the one before (the first on \<open>current\<close>), returns a promise that is fulfilled; the
  result is the value of the last one and the heap then. It is \<open>None\<close> as soon as one
  step throws, or returns a promise that is rejected or stays pending.
\<close>

fun all_fulfil :: "jsval \<Rightarrow> step list \<Rightarrow> heap \<Rightarrow> (jsval \<times> heap) option" where
  "all_fulfil current [] h = Some (current, h)"
| "all_fulfil current (fn # fns) h =
     (case fn current h of
        (Returned (Fulfilled v), h1) \<Rightarrow> all_fulfil v fns h1
      | _ \<Rightarrow> None)"

text \<open>
  The shape of an outcome tuple, in the words of the data model. \<open>outcome_tuple h r\<close>:
  \<open>r\<close> is an array that destructures into a boolean flag, an error slot and a data
  slot; a true flag comes with an empty error slot and a false flag with an empty data
  slot.
  \<open>normalized_tuple h r\<close>: moreover the flag is true exactly when the error slot is
  empty, a false flag coming with a normalized error in the error slot.
\<close>

definition outcome_tuple :: "heap \<Rightarrow> jsval \<Rightarrow> bool" where
  "outcome_tuple h r =
     (case destructure h r of
        Some (Bool flag, err, data) \<Rightarrow> (flag \<longrightarrow> err = Null) \<and> (\<not> flag \<longrightarrow> data = Null)
      | _ \<Rightarrow> False)"

definition normalized_tuple :: "heap \<Rightarrow> jsval \<Rightarrow> bool" where
  "normalized_tuple h r =
     (case destructure h r of
        Some (Bool flag, err, data) \<Rightarrow>
          (flag \<longleftrightarrow> err = Null) \<and> (\<not> flag \<longrightarrow> data = Null \<and> instanceof_SafeError h err)
      | _ \<Rightarrow> False)"

text \<open>
  \<open>settled_with P st\<close>: if the promise of \<^verbatim>\<open>cb\<close> is fulfilled, then its value had the
  property \<open>P\<close> in the heap of that moment.
\<close>

definition settled_with :: "(heap \<Rightarrow> jsval \<Rightarrow> bool) \<Rightarrow> cb_state \<Rightarrow> bool" where
  "settled_with P st =
     (case st of (p, snap, h) \<Rightarrow> (case p of Fulfilled r \<Rightarrow> P snap r | _ \<Rightarrow> True))"




text \<open>
  \<open>lossless enc dec deq data h\<close>: the payload is losslessly encodable. The host encodes
  it as a text, and decodes that text to a value that is deep-equal to the payload;
  \<open>deq\<close> is the deep equality, on values together with their heaps.
  \<open>primitive_equal\<close> is deep equality as far as it is plain equality: on primitive
  values.
\<close>

definition lossless :: "stringify \<Rightarrow> json_parse \<Rightarrow> (heap \<times> jsval \<Rightarrow> heap \<times> jsval \<Rightarrow> bool)
    \<Rightarrow> jsval \<Rightarrow> heap \<Rightarrow> bool" where
  "lossless enc dec deq data h =
     (case enc data h of
        Text s \<Rightarrow>
          (case dec s h of
             (Returned d, h1) \<Rightarrow> deq (h, data) (h1, d)
           | (Thrown x, h1) \<Rightarrow> False)
      | _ \<Rightarrow> False)"

definition primitive_equal :: "heap \<times> jsval \<Rightarrow> heap \<times> jsval \<Rightarrow> bool" where
  "primitive_equal x y =
     (case (snd x, snd y) of
        (Ref a, v) \<Rightarrow> False
      | (u, Ref b) \<Rightarrow> False
      | (u, v) \<Rightarrow> u = v)"


section \<open>Properties\<close>

subsection \<open>The heap and the normalized error\<close>

lemma lookup_append_old: "a < length h \<Longrightarrow> lookup (h @ xs) a = lookup h a"
  by (simp add: lookup_def nth_append)

lemma lookup_append_new: "lookup (h @ [ob]) (length h) = Some ob"
  by (simp add: lookup_def)

lemma lookup_Some_less: "lookup h a = Some ob \<Longrightarrow> a < length h"
  by (simp add: lookup_def split: if_splits)

lemma instanceof_SafeError_append:
  "instanceof_SafeError h v \<Longrightarrow> instanceof_SafeError (h @ xs) v"
  by (auto simp: instanceof_SafeError_def lookup_def nth_append split: jsval.splits if_splits)

lemma new_SafeError_instance:
  "new_SafeError m c k h = (e, h') \<Longrightarrow> instanceof_SafeError h' e"
  by (auto simp: new_SafeError_def alloc_def instanceof_SafeError_def lookup_def)

lemma from_result_instance:
  "SafeError_from ot v h = (e, h') \<Longrightarrow> instanceof_SafeError h' e"
  by (auto simp: SafeError_from_def Let_def dest: new_SafeError_instance
           split: if_splits option.splits jsval.splits)

text \<open>
  C9. Default normalization returns an instance of \<^verbatim>\<open>SafeError\<close> as it is: the same
  reference, and the heap untouched, so nothing is copied. Whatever the input, the result
  of \<^verbatim>\<open>SafeError.from\<close> is such an instance, so normalizing it again gives it back:
  normalization is idempotent.
\<close>

theorem from_identity_idempotent:
  "(instanceof_SafeError h v \<longrightarrow> SafeError_from ot v h = (v, h)) \<and>
   (SafeError_from ot v h = (e, h') \<longrightarrow> SafeError_from ot e h' = (e, h'))"
proof
  show "instanceof_SafeError h v \<longrightarrow> SafeError_from ot v h = (v, h)"
    by (simp add: SafeError_from_def)
  show "SafeError_from ot v h = (e, h') \<longrightarrow> SafeError_from ot e h' = (e, h')"
  proof
    assume "SafeError_from ot v h = (e, h')"
    then have "instanceof_SafeError h' e" by (rule from_result_instance)
    then show "SafeError_from ot e h' = (e, h')" by (simp add: SafeError_from_def)
  qed
qed

theorem from_identity_idempotent_witness:
  "instanceof_SafeError [SafeErrorObj ''boom'' Undefined Undefined] (Ref 0) \<and>
   SafeError_from object_text (Ref 0) [SafeErrorObj ''boom'' Undefined Undefined]
     = (Ref 0, [SafeErrorObj ''boom'' Undefined Undefined]) \<and>
   SafeError_from object_text (Number 42) [] = (Ref 0, [SafeErrorObj ''42'' (Number 42) Undefined]) \<and>
   SafeError_from object_text (Ref 0) [SafeErrorObj ''42'' (Number 42) Undefined]
     = (Ref 0, [SafeErrorObj ''42'' (Number 42) Undefined])"
proof -
  have a: "instanceof_SafeError [SafeErrorObj ''boom'' Undefined Undefined] (Ref 0)"
    by (simp add: instanceof_SafeError_def lookup_def)
  have b: "SafeError_from object_text (Number 42) [] = (Ref 0, [SafeErrorObj ''42'' (Number 42) Undefined])"
    by (simp add: SafeError_from_def instanceof_SafeError_def instanceof_Error_def
        new_SafeError_def alloc_def show_int_def)
  from a b from_identity_idempotent
    [of "[SafeErrorObj ''boom'' Undefined Undefined]" "Ref 0" object_text]
    from_identity_idempotent
    [of "[]" "Number 42" object_text "Ref 0" "[SafeErrorObj ''42'' (Number 42) Undefined]"]
  show ?thesis by simp
qed

subsection \<open>The wrappers on success\<close>

text \<open>
  C7. \<^verbatim>\<open>to\<close> on a promise fulfilled with \<open>v\<close>, and \<^verbatim>\<open>sync\<close> on a function that
  returns \<open>v\<close>, give a new tuple \<^verbatim>\<open>[true, null, v]\<close>: the error slot is \<open>Null\<close> and the
  data slot is \<open>v\<close> itself, the same reference when \<open>v\<close> is an object, whatever the
  transformer.
\<close>

theorem success_identity:
  "to ot (Fulfilled v) t h = (Fulfilled (Ref (length h)), h @ [ArrayObj [Bool True, Null, v]]) \<and>
   (fn h = (Returned v, h1) \<longrightarrow>
      sync ot fn t h = (Returned (Ref (length h1)), h1 @ [ArrayObj [Bool True, Null, v]]))"
  by (simp add: to_def sync_def success_tuple_def alloc_def)

theorem success_identity_witness:
  "to object_text (Fulfilled (Ref 0)) None [OtherObj []]
     = (Fulfilled (Ref 1), [OtherObj [], ArrayObj [Bool True, Null, Ref 0]]) \<and>
   sync object_text (returns (Ref 0)) None [OtherObj []]
     = (Returned (Ref 1), [OtherObj [], ArrayObj [Bool True, Null, Ref 0]])"
  using success_identity [of object_text "Ref 0" None "[OtherObj []]" "returns (Ref 0)" "[OtherObj []]"]
  by (simp add: returns_def)

subsection \<open>Sequential composition\<close>

text \<open>
  C10. \<^verbatim>\<open>pipe\<close> with no step calls nothing and fulfils with a new tuple
  \<^verbatim>\<open>[true, null, initial]\<close> whose data slot is the initial value itself.
\<close>

theorem pipe_no_steps:
  "pipe ot v [] h = (Fulfilled (Ref (length h)), h @ [ArrayObj [Bool True, Null, v]], [])"
  by (simp add: pipe_def success_tuple_def alloc_def)

lemma upt_first: "[i ..< i + Suc n] = i # [Suc i ..< Suc i + n]"
  by (simp add: upt_rec del: upt_Suc)

lemma pipe_loop_append:
  "all_fulfil current pre h = Some (v, h1) \<Longrightarrow>
   pipe_loop ot i current (pre @ rest) h =
     (case pipe_loop ot (i + length pre) v rest h1 of
        (p, h2, calls) \<Rightarrow> (p, h2, [i ..< i + length pre] @ calls))"
proof (induction pre arbitrary: i current h)
  case Nil
  then show ?case by (simp split: prod.splits)
next
  case (Cons fn fns)
  from Cons.prems obtain u h0 where
    step: "fn current h = (Returned (Fulfilled u), h0)" and
    rest: "all_fulfil u fns h0 = Some (v, h1)"
    by (auto split: prod.splits outcome.splits promise.splits)
  obtain p h2 calls where tail: "pipe_loop ot (Suc i + length fns) v rest h1 = (p, h2, calls)"
    by (cases "pipe_loop ot (Suc i + length fns) v rest h1") auto
  have "pipe_loop ot (Suc i) u (fns @ rest) h0 = (p, h2, [Suc i ..< Suc i + length fns] @ calls)"
    using Cons.IH [OF rest, of "Suc i"] tail by simp
  then have "pipe_loop ot i current ((fn # fns) @ rest) h
      = (p, h2, i # [Suc i ..< Suc i + length fns] @ calls)"
    using step by simp
  moreover have "[i ..< i + length (fn # fns)] = i # [Suc i ..< Suc i + length fns]"
    using upt_first [of i "length fns"] by simp
  moreover have "pipe_loop ot (i + length (fn # fns)) v rest h1 = (p, h2, calls)"
    using tail by simp
  ultimately show ?case by (simp del: upt_Suc)
qed

text \<open>
  C1. Let the steps before index \<open>K\<close> (the list \<open>pre\<close>, of length \<open>K\<close>) all fulfil, the
  last of them with \<open>v\<close>. If step \<open>K\<close> fails on \<open>v\<close>, by a throw or by a rejected
  promise, with the raw failure \<open>err\<close>, then \<^verbatim>\<open>pipe\<close> has called exactly the steps
  \<open>0, ..., K\<close>, in this order, none of the steps after \<open>K\<close>, and fulfils with a new
  tuple \<^verbatim>\<open>[false, SafeError.from(err), null]\<close>. If step \<open>K\<close> is the last one and
  fulfils with \<open>final\<close>, then \<^verbatim>\<open>pipe\<close> has called every step in order and fulfils
  with a new tuple \<^verbatim>\<open>[true, null, final]\<close>.
\<close>

theorem pipe_short_circuit:
  "(all_fulfil initial pre h = Some (v, h1) \<longrightarrow>
      (fn v h1 = (Thrown err, h2) \<or> fn v h1 = (Returned (Rejected err), h2)) \<longrightarrow>
      SafeError_from ot err h2 = (error, h3) \<longrightarrow>
      pipe ot initial (pre @ fn # post) h =
        (Fulfilled (Ref (length h3)), h3 @ [ArrayObj [Bool False, error, Null]],
         [0 ..< Suc (length pre)])) \<and>
   (all_fulfil initial pre h = Some (v, h1) \<longrightarrow>
      fn v h1 = (Returned (Fulfilled final), h2) \<longrightarrow>
      pipe ot initial (pre @ [fn]) h =
        (Fulfilled (Ref (length h2)), h2 @ [ArrayObj [Bool True, Null, final]],
         [0 ..< Suc (length pre)]))"
proof (intro conjI impI)
  assume pre: "all_fulfil initial pre h = Some (v, h1)"
    and fails: "fn v h1 = (Thrown err, h2) \<or> fn v h1 = (Returned (Rejected err), h2)"
    and norm: "SafeError_from ot err h2 = (error, h3)"
  have "pipe_loop ot (length pre) v (fn # post) h1 =
      (Fulfilled (Ref (length h3)), h3 @ [ArrayObj [Bool False, error, Null]], [length pre])"
    using fails norm by (auto simp: pipe_catch_def failure_tuple_def alloc_def)
  then show "pipe ot initial (pre @ fn # post) h =
      (Fulfilled (Ref (length h3)), h3 @ [ArrayObj [Bool False, error, Null]],
       [0 ..< Suc (length pre)])"
    using pipe_loop_append [OF pre, of ot 0 "fn # post"] by (simp add: pipe_def)
next
  assume pre: "all_fulfil initial pre h = Some (v, h1)"
    and ok: "fn v h1 = (Returned (Fulfilled final), h2)"
  have "pipe_loop ot (length pre) v [fn] h1 =
      (Fulfilled (Ref (length h2)), h2 @ [ArrayObj [Bool True, Null, final]], [length pre])"
    using ok by (simp add: success_tuple_def alloc_def)
  then show "pipe ot initial (pre @ [fn]) h =
      (Fulfilled (Ref (length h2)), h2 @ [ArrayObj [Bool True, Null, final]],
       [0 ..< Suc (length pre)])"
    using pipe_loop_append [OF pre, of ot 0 "[fn]"] by (simp add: pipe_def)
qed

theorem pipe_short_circuit_witness:
  "all_fulfil (Number 0) [add_one] [] = Some (Number 1, []) \<and>
   throw_error ''x'' (Number 1) [] = (Thrown (Ref 0), [ErrorObj ''x'']) \<and>
   SafeError_from object_text (Ref 0) [ErrorObj ''x'']
     = (Ref 1, [ErrorObj ''x'', SafeErrorObj ''x'' (Ref 0) Undefined]) \<and>
   pipe object_text (Number 0) ([add_one] @ throw_error ''x'' # [add_one]) []
     = (Fulfilled (Ref 2),
        [ErrorObj ''x'', SafeErrorObj ''x'' (Ref 0) Undefined, ArrayObj [Bool False, Ref 1, Null]],
        [0 ..< Suc (length [add_one])]) \<and>
   add_one (Number 1) [] = (Returned (Fulfilled (Number 2)), []) \<and>
   pipe object_text (Number 0) ([add_one] @ [add_one]) []
     = (Fulfilled (Ref 0), [ArrayObj [Bool True, Null, Number 2]], [0 ..< Suc (length [add_one])])"
proof -
  have a: "all_fulfil (Number 0) [add_one] [] = Some (Number 1, [])"
    by (simp add: add_one_def)
  have b: "throw_error ''x'' (Number 1) [] = (Thrown (Ref 0), [ErrorObj ''x''])"
    by (simp add: throw_error_def)
  have c: "SafeError_from object_text (Ref 0) [ErrorObj ''x'']
     = (Ref 1, [ErrorObj ''x'', SafeErrorObj ''x'' (Ref 0) Undefined])"
    by (simp add: SafeError_from_def instanceof_SafeError_def instanceof_Error_def lookup_def
        get_message_def new_SafeError_def alloc_def)
  have d: "add_one (Number 1) [] = (Returned (Fulfilled (Number 2)), [])"
    by (simp add: add_one_def)
  from a b c d
    pipe_short_circuit [of "Number 0" "[add_one]" "[]" "Number 1" "[]" "throw_error ''x''"
      "Ref 0" "[ErrorObj ''x'']" object_text "Ref 1"
      "[ErrorObj ''x'', SafeErrorObj ''x'' (Ref 0) Undefined]" "[add_one]" "Number 2"]
    pipe_short_circuit [of "Number 0" "[add_one]" "[]" "Number 1" "[]" add_one
      "Ref 0" "[]" object_text "Ref 1" "[]" "[]" "Number 2"]
  show ?thesis by simp
qed

subsection \<open>Default normalization of error objects\<close>

text \<open>
  C3, as amended. The branch of \<^verbatim>\<open>SafeError.from\<close> that keeps a message is guarded by
  \<^verbatim>\<open>value instanceof Error\<close>. For an instance of the host's \<^verbatim>\<open>Error\<close> that is not a
  \<^verbatim>\<open>SafeError\<close>, the result is a new normalized error with the message of the value,
  verbatim, and the value itself as cause. Any other object, whatever \<^verbatim>\<open>message\<close>
  property it carries, also becomes the cause of a new normalized error, but the message
  of that error is \<^verbatim>\<open>String(value)\<close>, or \<^verbatim>\<open>'Unknown error'\<close> when the conversion
  throws.
\<close>

theorem from_error_instance:
  "(lookup h a = Some (ErrorObj m) \<longrightarrow>
      get_message h (Ref a) = Some (Str m) \<and>
      SafeError_from ot (Ref a) h = (Ref (length h), h @ [SafeErrorObj m (Ref a) Undefined])) \<and>
   (lookup h a = Some (OtherObj ps) \<longrightarrow>
      SafeError_from ot (Ref a) h =
        (Ref (length h),
         h @ [SafeErrorObj (case ot h a of Some s \<Rightarrow> s | None \<Rightarrow> ''Unknown error'') (Ref a) Undefined]))"
  by (simp add: SafeError_from_def instanceof_SafeError_def instanceof_Error_def
      get_message_def new_SafeError_def alloc_def)

theorem from_error_instance_witness:
  "lookup [ErrorObj ''boom''] 0 = Some (ErrorObj ''boom'') \<and>
   get_message [ErrorObj ''boom''] (Ref 0) = Some (Str ''boom'') \<and>
   SafeError_from object_text (Ref 0) [ErrorObj ''boom'']
     = (Ref 1, [ErrorObj ''boom'', SafeErrorObj ''boom'' (Ref 0) Undefined]) \<and>
   lookup [OtherObj [(''message'', Str ''boom'')]] 0 = Some (OtherObj [(''message'', Str ''boom'')]) \<and>
   SafeError_from object_text (Ref 0) [OtherObj [(''message'', Str ''boom'')]]
     = (Ref 1, [OtherObj [(''message'', Str ''boom'')],
                SafeErrorObj ''[object Object]'' (Ref 0) Undefined])"
proof -
  have a: "lookup [ErrorObj ''boom''] 0 = Some (ErrorObj ''boom'')"
    by (simp add: lookup_def)
  have b: "lookup [OtherObj [(''message'', Str ''boom'')]] 0 = Some (OtherObj [(''message'', Str ''boom'')])"
    by (simp add: lookup_def)
  from a b
    from_error_instance [of "[ErrorObj ''boom'']" 0 "''boom''" object_text "[]"]
    from_error_instance [of "[OtherObj [(''message'', Str ''boom'')]]" 0 "''boom''" object_text
      "[(''message'', Str ''boom'')]"]
  show ?thesis by (simp add: object_text_def)
qed

text \<open>
  C3 as stated fails on the object \<^verbatim>\<open>{ message: 'boom' }\<close>: it carries the message
  \<^verbatim>\<open>'boom'\<close>, and the normalized error made from it has the message
  \<^verbatim>\<open>'[object Object]'\<close>.
\<close>

theorem from_message_object_counterexample:
  "get_message [OtherObj [(''message'', Str ''boom'')]] (Ref 0) = Some (Str ''boom'') \<and>
   SafeError_from object_text (Ref 0) [OtherObj [(''message'', Str ''boom'')]]
     = (Ref 1, [OtherObj [(''message'', Str ''boom'')],
                SafeErrorObj ''[object Object]'' (Ref 0) Undefined]) \<and>
   get_message [OtherObj [(''message'', Str ''boom'')],
                SafeErrorObj ''[object Object]'' (Ref 0) Undefined] (Ref 1)
     \<noteq> Some (Str ''boom'')"
  by (simp add: SafeError_from_def instanceof_SafeError_def instanceof_Error_def
      get_message_def new_SafeError_def alloc_def lookup_def object_text_def)

subsection \<open>Mapping over a tuple\<close>

text \<open>
  C2 as stated fails on any false-flag tuple: \<^verbatim>\<open>map\<close> ends with
  \<^verbatim>\<open>return [false, err, null]\<close>, an array literal, so the tuple it returns is a new
  object and not its argument. Here the argument is the tuple at address 1 and the
  result the tuple at address 2.
\<close>

theorem map_false_flag_counterexample:
  "map_result (Ref 1) identity_fn
      [SafeErrorObj ''e'' Undefined Undefined, ArrayObj [Bool False, Ref 0, Null]]
     = Some (Returned (Ref 2),
        [SafeErrorObj ''e'' Undefined Undefined, ArrayObj [Bool False, Ref 0, Null],
         ArrayObj [Bool False, Ref 0, Null]]) \<and>
   Ref 2 \<noteq> Ref 1"
  by (simp add: map_result_def destructure_def lookup_def elem_def failure_tuple_def alloc_def)

text \<open>
  C2, as amended. On a false-flag tuple \<^verbatim>\<open>map\<close> does not call \<open>fn\<close> and returns a
  newly built tuple \<^verbatim>\<open>[false, err, null]\<close>, where \<open>err\<close> is the very error
  reference of the argument; the result is another object than the argument. On a
  true-flag tuple \<^verbatim>\<open>[true, null, v]\<close> it returns a new tuple
  \<^verbatim>\<open>[true, null, fn(v)]\<close>.
\<close>

theorem map_result_tuple:
  "(lookup h a = Some (ArrayObj [Bool False, err, d]) \<longrightarrow>
      map_result (Ref a) fn h
        = Some (Returned (Ref (length h)), h @ [ArrayObj [Bool False, err, Null]]) \<and>
      Ref (length h) \<noteq> Ref a) \<and>
   (lookup h a = Some (ArrayObj [Bool True, Null, v]) \<longrightarrow> fn v h = (Returned u, h1) \<longrightarrow>
      map_result (Ref a) fn h
        = Some (Returned (Ref (length h1)), h1 @ [ArrayObj [Bool True, Null, u]]))"
  by (auto simp: map_result_def destructure_def elem_def failure_tuple_def success_tuple_def
      alloc_def dest: lookup_Some_less)

theorem map_result_tuple_witness:
  "lookup [SafeErrorObj ''e'' Undefined Undefined, ArrayObj [Bool False, Ref 0, Null]] 1
     = Some (ArrayObj [Bool False, Ref 0, Null]) \<and>
   map_result (Ref 1) identity_fn
      [SafeErrorObj ''e'' Undefined Undefined, ArrayObj [Bool False, Ref 0, Null]]
     = Some (Returned (Ref 2),
        [SafeErrorObj ''e'' Undefined Undefined, ArrayObj [Bool False, Ref 0, Null],
         ArrayObj [Bool False, Ref 0, Null]]) \<and>
   lookup [ArrayObj [Bool True, Null, Number 5]] 0 = Some (ArrayObj [Bool True, Null, Number 5]) \<and>
   identity_fn (Number 5) [ArrayObj [Bool True, Null, Number 5]]
     = (Returned (Number 5), [ArrayObj [Bool True, Null, Number 5]]) \<and>
   map_result (Ref 0) identity_fn [ArrayObj [Bool True, Null, Number 5]]
     = Some (Returned (Ref 1),
        [ArrayObj [Bool True, Null, Number 5], ArrayObj [Bool True, Null, Number 5]])"
proof -
  have a: "lookup [SafeErrorObj ''e'' Undefined Undefined, ArrayObj [Bool False, Ref 0, Null]] 1
     = Some (ArrayObj [Bool False, Ref 0, Null])"
    by (simp add: lookup_def)
  have b: "lookup [ArrayObj [Bool True, Null, Number 5]] 0 = Some (ArrayObj [Bool True, Null, Number 5])"
    by (simp add: lookup_def)
  have c: "identity_fn (Number 5) [ArrayObj [Bool True, Null, Number 5]]
     = (Returned (Number 5), [ArrayObj [Bool True, Null, Number 5]])"
    by (simp add: identity_fn_def)
  from a b c
    map_result_tuple [of "[SafeErrorObj ''e'' Undefined Undefined, ArrayObj [Bool False, Ref 0, Null]]"
       1 "Ref 0" Null identity_fn]
    map_result_tuple [of "[ArrayObj [Bool True, Null, Number 5]]" 0 Null Null identity_fn
       "Number 5" "Number 5" "[ArrayObj [Bool True, Null, Number 5]]"]
  show ?thesis by simp
qed

subsection \<open>The shape of the tuples\<close>

lemma normalized_imp_outcome: "normalized_tuple h r \<Longrightarrow> outcome_tuple h r"
  by (auto simp: normalized_tuple_def outcome_tuple_def split: option.splits jsval.splits)

lemma destructure_new:
  "destructure (h @ [ArrayObj [x, y, z]]) (Ref (length h)) = Some (x, y, z)"
  by (simp add: destructure_def lookup_def elem_def)

lemma instanceof_SafeError_not_Null: "instanceof_SafeError h e \<Longrightarrow> e \<noteq> Null"
  by (auto simp: instanceof_SafeError_def)

lemma success_tuple_shape: "success_tuple v h = (r, h') \<Longrightarrow> normalized_tuple h' r"
  by (auto simp: success_tuple_def alloc_def normalized_tuple_def destructure_new)

lemma failure_tuple_shape: "failure_tuple e h = (r, h') \<Longrightarrow> outcome_tuple h' r"
  by (auto simp: failure_tuple_def alloc_def outcome_tuple_def destructure_new)

lemma failure_tuple_normalized:
  "instanceof_SafeError h e \<Longrightarrow> failure_tuple e h = (r, h') \<Longrightarrow> normalized_tuple h' r"
  by (auto simp: failure_tuple_def alloc_def normalized_tuple_def destructure_new
      instanceof_SafeError_append dest: instanceof_SafeError_not_Null)

lemma normalize_default_instance:
  "normalize ot None err h = (Returned e, h1) \<Longrightarrow> instanceof_SafeError h1 e"
  by (auto simp: normalize_def split: prod.splits dest: from_result_instance)

lemma sync_shape:
  "sync ot fn t h = (Returned r, h') \<Longrightarrow> outcome_tuple h' r \<and> (t = None \<longrightarrow> normalized_tuple h' r)"
  by (auto simp: sync_def split: prod.splits outcome.splits
      dest: success_tuple_shape failure_tuple_shape failure_tuple_normalized
        normalize_default_instance normalized_imp_outcome)

lemma to_shape:
  "to ot p t h = (Fulfilled r, h') \<Longrightarrow> outcome_tuple h' r \<and> (t = None \<longrightarrow> normalized_tuple h' r)"
  by (auto simp: to_def split: prod.splits outcome.splits promise.splits
      dest: success_tuple_shape failure_tuple_shape failure_tuple_normalized
        normalize_default_instance normalized_imp_outcome)

lemma pipe_catch_shape: "pipe_catch ot err h = (Fulfilled r, h') \<Longrightarrow> normalized_tuple h' r"
  by (auto simp: pipe_catch_def split: prod.splits
      dest: failure_tuple_normalized from_result_instance)

lemma pipe_catch_Fulfilled: "\<exists>r h'. pipe_catch ot err h = (Fulfilled r, h')"
  by (auto simp: pipe_catch_def split: prod.splits)

lemma pipe_loop_shape:
  "pipe_loop ot i current fns h = (Fulfilled r, h', calls) \<Longrightarrow> normalized_tuple h' r"
proof (induction fns arbitrary: i current h calls)
  case Nil
  then show ?case by (auto split: prod.splits dest: success_tuple_shape)
next
  case (Cons fn fns)
  show ?case
  proof (cases "fn current h")
    case (Pair res h1)
    show ?thesis
    proof (cases res)
      case (Thrown err)
      with Pair Cons.prems show ?thesis
        by (auto split: prod.splits dest: pipe_catch_shape)
    next
      case (Returned p)
      show ?thesis
      proof (cases p)
        case (Fulfilled v)
        with Pair Returned Cons.prems obtain calls' where
          "pipe_loop ot (Suc i) v fns h1 = (Fulfilled r, h', calls')"
          by (auto split: prod.splits)
        then show ?thesis by (rule Cons.IH)
      next
        case (Rejected err)
        with Pair Returned Cons.prems show ?thesis
          by (auto split: prod.splits dest: pipe_catch_shape)
      next
        case Pending
        with Pair Returned Cons.prems show ?thesis by simp
      qed
    qed
  qed
qed

lemma parse_shape: "parse dec s h = (Returned r, h') \<Longrightarrow> normalized_tuple h' r"
  by (auto simp: parse_def alloc_def split: if_splits prod.splits outcome.splits
      dest: success_tuple_shape failure_tuple_normalized new_SafeError_instance)

lemma map_result_shape: "map_result x f h = Some (Returned r, h') \<Longrightarrow> outcome_tuple h' r"
  by (auto simp: map_result_def split: option.splits if_splits prod.splits outcome.splits
      dest: success_tuple_shape failure_tuple_shape normalized_imp_outcome)


lemma call_fn_invariant:
  assumes c: "\<And>err result st. I st \<Longrightarrow> I (snd (c err result st))"
  shows "I st \<Longrightarrow> I (snd (snd (call_fn c ad st)))"
proof (induction ad arbitrary: st)
  case (Invoke err result k)
  obtain res st1 where r: "c err result st = (res, st1)" by (cases "c err result st") auto
  with c [OF Invoke.prems, of err result] have "I st1" by simp
  then have "I (snd (snd (call_fn c (k res) st1)))"
    using Invoke.IH by blast
  with r show ?case by simp
qed simp_all

lemma run_later_invariant:
  assumes c: "\<And>err result st. I st \<Longrightarrow> I (snd (c err result st))"
  shows "I st \<Longrightarrow> I (run_later c ad st)"
proof (induction ad arbitrary: st)
  case (Invoke err result k)
  obtain res st1 where r: "c err result st = (res, st1)" by (cases "c err result st") auto
  with c [OF Invoke.prems, of err result] have "I st1" by simp
  then have "I (run_later c (k res) st1)"
    using Invoke.IH by blast
  with r show ?case by simp
qed simp_all

lemma resolve_settled_with:
  "settled_with P (p, snap, h) \<Longrightarrow> P h r \<Longrightarrow> settled_with P (resolve r (p, snap, h))"
  by (auto simp: settled_with_def resolve_def split: promise.splits)

lemma reject_settled_with:
  "settled_with P (p, snap, h) \<Longrightarrow> settled_with P (reject x (p, snap, h))"
  by (auto simp: settled_with_def reject_def split: promise.splits)

lemma settled_with_heap:
  "settled_with P (p, snap, h) \<Longrightarrow> settled_with P (p, snap, h')"
  by (simp add: settled_with_def)

lemma callback_outcome_tuple:
  "settled_with outcome_tuple st \<Longrightarrow> settled_with outcome_tuple (snd (callback ot t err result st))"
  by (cases st)
     (auto simp: callback_def split: prod.splits outcome.splits
        intro!: resolve_settled_with
        dest: success_tuple_shape failure_tuple_shape normalized_imp_outcome
        elim: settled_with_heap)

lemma callback_normalized_tuple:
  "settled_with normalized_tuple st \<Longrightarrow>
   settled_with normalized_tuple (snd (callback ot None err result st))"
  by (cases st)
     (auto simp: callback_def split: prod.splits outcome.splits
        intro!: resolve_settled_with
        dest: success_tuple_shape failure_tuple_normalized normalize_default_instance
        elim: settled_with_heap)

lemma executor_outcome_tuple:
  assumes "settled_with outcome_tuple st"
  shows "settled_with outcome_tuple (snd (executor ot fn t st))"
proof -
  have inv: "settled_with outcome_tuple (snd (snd (call_fn (callback ot t) fn st)))"
  proof (rule call_fn_invariant [where I = "settled_with outcome_tuple" and c = "callback ot t"])
    show "\<And>err result st. settled_with outcome_tuple st \<Longrightarrow>
        settled_with outcome_tuple (snd (callback ot t err result st))"
      by (rule callback_outcome_tuple)
    show "settled_with outcome_tuple st" by (rule assms)
  qed
  obtain res later p snap h1 where r: "call_fn (callback ot t) fn st = (res, later, (p, snap, h1))"
    by (cases "call_fn (callback ot t) fn st") auto
  with inv have "settled_with outcome_tuple (p, snap, h1)" by simp
  with r show ?thesis
    by (auto simp: executor_def split: outcome.splits prod.splits
        intro!: resolve_settled_with reject_settled_with
        dest: failure_tuple_shape elim: settled_with_heap)
qed

lemma executor_normalized_tuple:
  assumes "settled_with normalized_tuple st"
  shows "settled_with normalized_tuple (snd (executor ot fn None st))"
proof -
  have inv: "settled_with normalized_tuple (snd (snd (call_fn (callback ot None) fn st)))"
  proof (rule call_fn_invariant [where I = "settled_with normalized_tuple" and c = "callback ot None"])
    show "\<And>err result st. settled_with normalized_tuple st \<Longrightarrow>
        settled_with normalized_tuple (snd (callback ot None err result st))"
      by (rule callback_normalized_tuple)
    show "settled_with normalized_tuple st" by (rule assms)
  qed
  obtain res later p snap h1 where r: "call_fn (callback ot None) fn st = (res, later, (p, snap, h1))"
    by (cases "call_fn (callback ot None) fn st") auto
  with inv have "settled_with normalized_tuple (p, snap, h1)" by simp
  with r show ?thesis
    by (auto simp: executor_def split: outcome.splits prod.splits
        intro!: resolve_settled_with reject_settled_with
        dest: failure_tuple_normalized normalize_default_instance elim: settled_with_heap)
qed

lemma cb_settled_with:
  assumes ex: "\<And>st. settled_with P st \<Longrightarrow> settled_with P (snd (executor ot fn t st))"
    and cbk: "\<And>err result st. settled_with P st \<Longrightarrow> settled_with P (snd (callback ot t err result st))"
    and res: "cb ot fn t h = (Fulfilled r, h')"
  shows "P h' r"
proof -
  obtain later st1 where e: "executor ot fn t (Pending, h, h) = (later, st1)"
    by (cases "executor ot fn t (Pending, h, h)") auto
  have "settled_with P (Pending, h, h)" by (simp add: settled_with_def)
  from ex [OF this] e have "settled_with P st1" by simp
  have fin: "settled_with P (run_later (callback ot t) later st1)"
  proof (rule run_later_invariant [where I = "settled_with P" and c = "callback ot t"])
    show "\<And>err result st. settled_with P st \<Longrightarrow> settled_with P (snd (callback ot t err result st))"
      by (rule cbk)
    show "settled_with P st1" by fact
  qed
  obtain p snap hf where f: "run_later (callback ot t) later st1 = (p, snap, hf)"
    by (cases "run_later (callback ot t) later st1") auto
  with res e have "p = Fulfilled r" and "h' = snap"
    by (auto simp: cb_def split: if_splits)
  with fin f show ?thesis by (simp add: settled_with_def)
qed

lemma cb_shape:
  "cb ot fn t h = (Fulfilled r, h') \<Longrightarrow> outcome_tuple h' r \<and> (t = None \<longrightarrow> normalized_tuple h' r)"
proof
  assume res: "cb ot fn t h = (Fulfilled r, h')"
  show "outcome_tuple h' r"
    using executor_outcome_tuple callback_outcome_tuple res by (rule cb_settled_with)
  show "t = None \<longrightarrow> normalized_tuple h' r"
  proof
    assume "t = None"
    with res have "cb ot fn None h = (Fulfilled r, h')" by simp
    with executor_normalized_tuple callback_normalized_tuple show "normalized_tuple h' r"
      by (rule cb_settled_with)
  qed
qed


text \<open>
  C6, as amended. Every tuple that \<^verbatim>\<open>sync\<close>, \<^verbatim>\<open>to\<close>, \<^verbatim>\<open>cb\<close>, \<^verbatim>\<open>pipe\<close>,
  \<^verbatim>\<open>parse\<close> or \<^verbatim>\<open>map\<close> produces has a true flag with an empty error slot, or a false
  flag with an empty data slot. Where the failure is normalized by default (the wrappers
  with no transformer, and always \<^verbatim>\<open>pipe\<close> and \<^verbatim>\<open>parse\<close>), the error slot of a
  false-flag tuple holds a normalized error, so the flag is true exactly when the error
  slot is empty. Nothing is said of the data slot of a true-flag tuple: it holds the
  payload, which may be the empty value itself.
\<close>

theorem produced_tuple_invariant:
  "(sync ot fn t h = (Returned r, h') \<longrightarrow>
      outcome_tuple h' r \<and> (t = None \<longrightarrow> normalized_tuple h' r)) \<and>
   (to ot p t h = (Fulfilled r, h') \<longrightarrow>
      outcome_tuple h' r \<and> (t = None \<longrightarrow> normalized_tuple h' r)) \<and>
   (cb ot ad t h = (Fulfilled r, h') \<longrightarrow>
      outcome_tuple h' r \<and> (t = None \<longrightarrow> normalized_tuple h' r)) \<and>
   (pipe ot v fns h = (Fulfilled r, h', calls) \<longrightarrow> normalized_tuple h' r) \<and>
   (parse dec s h = (Returned r, h') \<longrightarrow> normalized_tuple h' r) \<and>
   (map_result x f h = Some (Returned r, h') \<longrightarrow> outcome_tuple h' r)"
  using sync_shape [of ot fn t h r h'] to_shape [of ot p t h r h'] cb_shape [of ot ad t h r h']
    pipe_loop_shape [of ot 0 v fns h r h' calls] parse_shape [of dec s h r h']
    map_result_shape [of x f h r h']
  unfolding pipe_def by blast

theorem produced_tuple_invariant_witness:
  "sync object_text (throws (Str ''oops'')) None []
     = (Returned (Ref 1), [SafeErrorObj ''oops'' Undefined Undefined, ArrayObj [Bool False, Ref 0, Null]]) \<and>
   to object_text (Rejected (Str ''oops'')) None []
     = (Fulfilled (Ref 1), [SafeErrorObj ''oops'' Undefined Undefined, ArrayObj [Bool False, Ref 0, Null]]) \<and>
   cb object_text (done_with (Str ''oops'') Undefined) None []
     = (Fulfilled (Ref 1), [SafeErrorObj ''oops'' Undefined Undefined, ArrayObj [Bool False, Ref 0, Null]]) \<and>
   pipe object_text Null [reject_with (Str ''oops'')] []
     = (Fulfilled (Ref 1), [SafeErrorObj ''oops'' Undefined Undefined, ArrayObj [Bool False, Ref 0, Null]], [0]) \<and>
   parse int_json_parse ''[ERR] error: oops'' []
     = (Returned (Ref 1), [SafeErrorObj ''oops'' Undefined Undefined, ArrayObj [Bool False, Ref 0, Null]]) \<and>
   outcome_tuple [SafeErrorObj ''oops'' Undefined Undefined, ArrayObj [Bool False, Ref 0, Null]] (Ref 1) \<and>
   normalized_tuple [SafeErrorObj ''oops'' Undefined Undefined, ArrayObj [Bool False, Ref 0, Null]] (Ref 1) \<and>
   map_result (Ref 0) identity_fn [ArrayObj [Bool True, Null, Null]]
     = Some (Returned (Ref 1), [ArrayObj [Bool True, Null, Null], ArrayObj [Bool True, Null, Null]]) \<and>
   outcome_tuple [ArrayObj [Bool True, Null, Null], ArrayObj [Bool True, Null, Null]] (Ref 1)"
proof -
  have runs:
    "sync object_text (throws (Str ''oops'')) None []
       = (Returned (Ref 1), [SafeErrorObj ''oops'' Undefined Undefined, ArrayObj [Bool False, Ref 0, Null]])"
    "to object_text (Rejected (Str ''oops'')) None []
       = (Fulfilled (Ref 1), [SafeErrorObj ''oops'' Undefined Undefined, ArrayObj [Bool False, Ref 0, Null]])"
    "cb object_text (done_with (Str ''oops'') Undefined) None []
       = (Fulfilled (Ref 1), [SafeErrorObj ''oops'' Undefined Undefined, ArrayObj [Bool False, Ref 0, Null]])"
    "pipe object_text Null [reject_with (Str ''oops'')] []
       = (Fulfilled (Ref 1), [SafeErrorObj ''oops'' Undefined Undefined, ArrayObj [Bool False, Ref 0, Null]], [0])"
    "parse int_json_parse ''[ERR] error: oops'' []
       = (Returned (Ref 1), [SafeErrorObj ''oops'' Undefined Undefined, ArrayObj [Bool False, Ref 0, Null]])"
    "map_result (Ref 0) identity_fn [ArrayObj [Bool True, Null, Null]]
       = Some (Returned (Ref 1), [ArrayObj [Bool True, Null, Null], ArrayObj [Bool True, Null, Null]])"
    by (simp_all add: sync_def to_def cb_def executor_def callback_def resolve_def done_with_def
        pipe_def pipe_catch_def reject_with_def parse_def startsWith_def slice_def
        map_result_def destructure_def elem_def lookup_def identity_fn_def
        throws_def normalize_def SafeError_from_def instanceof_SafeError_def instanceof_Error_def
        new_SafeError_def failure_tuple_def success_tuple_def alloc_def)
  from runs
    produced_tuple_invariant [where ot = object_text and fn = "throws (Str ''oops'')" and t = None
      and h = "[]" and r = "Ref 1"
      and h' = "[SafeErrorObj ''oops'' Undefined Undefined, ArrayObj [Bool False, Ref 0, Null]]"
      and p = "Rejected (Str ''oops'')" and ad = "done_with (Str ''oops'') Undefined"
      and v = Null and fns = "[reject_with (Str ''oops'')]" and calls = "[0]"
      and dec = int_json_parse and s = "''[ERR] error: oops''"]
    produced_tuple_invariant [where x = "Ref 0" and f = identity_fn
      and h = "[ArrayObj [Bool True, Null, Null]]" and r = "Ref 1"
      and h' = "[ArrayObj [Bool True, Null, Null], ArrayObj [Bool True, Null, Null]]"]
  show ?thesis by simp
qed

text \<open>
  C6 as stated fails in two ways. \<^verbatim>\<open>sync(() => null)\<close> gives \<^verbatim>\<open>[true, null, null]\<close>:
  both slots are empty, and the data slot is empty under a true flag. With the
  transformer \<^verbatim>\<open>err => null\<close>, \<^verbatim>\<open>sync(() => { throw 1 }, err => null)\<close> gives
  \<^verbatim>\<open>[false, null, null]\<close>: the error slot is empty under a false flag.
\<close>

theorem both_slots_empty_counterexample:
  "sync object_text (returns Null) None [] = (Returned (Ref 0), [ArrayObj [Bool True, Null, Null]]) \<and>
   destructure [ArrayObj [Bool True, Null, Null]] (Ref 0) = Some (Bool True, Null, Null) \<and>
   sync object_text (throws (Number 1)) (Some null_transformer) []
     = (Returned (Ref 0), [ArrayObj [Bool False, Null, Null]]) \<and>
   destructure [ArrayObj [Bool False, Null, Null]] (Ref 0) = Some (Bool False, Null, Null)"
  by (simp add: sync_def returns_def throws_def null_transformer_def normalize_def
      success_tuple_def failure_tuple_def alloc_def destructure_def lookup_def elem_def)

subsection \<open>The callback adapter\<close>






















subsection \<open>Failures do not escape the wrappers\<close>










subsection \<open>The textual round trip\<close>

lemma startsWith_prefix: "startsWith (p @ s) p"
  by (simp add: startsWith_def)

lemma slice_prefix: "slice (p @ s) (length p) = s"
  by (simp add: slice_def)

lemma parse_ok_text:
  "dec s h = (Returned d, h1) \<Longrightarrow>
   parse dec (''[OK] data: '' @ s) h
     = (Returned (Ref (length h1)), h1 @ [ArrayObj [Bool True, Null, d]])"
  using startsWith_prefix [of "''[OK] data: ''" s] slice_prefix [of "''[OK] data: ''" s]
  by (simp add: parse_def success_tuple_def alloc_def)

lemma parse_err_text:
  "parse dec (''[ERR] error: '' @ m) h
     = (Returned (Ref (Suc (length h))),
        h @ [SafeErrorObj m Undefined Undefined, ArrayObj [Bool False, Ref (length h), Null]])"
proof -
  have "\<not> startsWith (''[ERR] error: '' @ m) ''[OK] data: ''"
    by (simp add: startsWith_def)
  then show ?thesis
    using startsWith_prefix [of "''[ERR] error: ''" m] slice_prefix [of "''[ERR] error: ''" m]
    by (simp add: parse_def new_SafeError_def failure_tuple_def alloc_def)
qed

lemma format_ok:
  "lookup h a = Some (ArrayObj [Bool True, e, data]) \<Longrightarrow> enc data h = Text s \<Longrightarrow>
   format ot enc (Ref a) h = Inr (''[OK] data: '' @ s)"
  by (simp add: format_def destructure_def elem_def)

lemma format_err:
  "lookup h a = Some (ArrayObj [Bool False, err, d]) \<Longrightarrow> get_message h err = Some (Str m) \<Longrightarrow>
   format ot enc (Ref a) h = Inr (''[ERR] error: '' @ m)"
  by (simp add: format_def destructure_def elem_def)

text \<open>
  C5. Let \<open>t\<close> be a tuple in the heap. If \<open>t\<close> is \<^verbatim>\<open>[true, null, data]\<close> and the payload
  is losslessly encodable, then \<^verbatim>\<open>format\<close> gives the text \<^verbatim>\<open>[OK] data: \<close> followed by
  the encoding of the payload, and \<^verbatim>\<open>parse\<close> of that text returns a new tuple
  \<^verbatim>\<open>[true, null, d]\<close> whose payload \<open>d\<close> is the decoded value, deep-equal to \<open>data\<close>.
  If \<open>t\<close> is \<^verbatim>\<open>[false, err, null]\<close> and the message of \<open>err\<close> is \<open>m\<close>, then
  \<^verbatim>\<open>format\<close> gives \<^verbatim>\<open>[ERR] error: \<close> followed by \<open>m\<close>, and \<^verbatim>\<open>parse\<close> of that
  text returns a new tuple \<^verbatim>\<open>[false, e, null]\<close> whose error \<open>e\<close> is a new normalized
  error with the message \<open>m\<close> and with neither cause nor code, whatever those of \<open>err\<close>
  were. The flag is the same in both cases.
\<close>

theorem format_parse_round_trip:
  "(lookup h a = Some (ArrayObj [Bool True, Null, data]) \<longrightarrow> lossless enc dec deq data h \<longrightarrow>
      (\<exists>s d h1. enc data h = Text s \<and> dec s h = (Returned d, h1) \<and>
         format ot enc (Ref a) h = Inr (''[OK] data: '' @ s) \<and>
         parse dec (''[OK] data: '' @ s) h
           = (Returned (Ref (length h1)), h1 @ [ArrayObj [Bool True, Null, d]]) \<and>
         deq (h, data) (h1, d))) \<and>
   (lookup h a = Some (ArrayObj [Bool False, err, Null]) \<longrightarrow> get_message h err = Some (Str m) \<longrightarrow>
      format ot enc (Ref a) h = Inr (''[ERR] error: '' @ m) \<and>
      parse dec (''[ERR] error: '' @ m) h
        = (Returned (Ref (Suc (length h))),
           h @ [SafeErrorObj m Undefined Undefined, ArrayObj [Bool False, Ref (length h), Null]]))"
proof (intro conjI impI)
  assume t: "lookup h a = Some (ArrayObj [Bool True, Null, data])"
    and l: "lossless enc dec deq data h"
  from l obtain s d h1 where
    e: "enc data h = Text s" and p: "dec s h = (Returned d, h1)" and q: "deq (h, data) (h1, d)"
    by (auto simp: lossless_def split: stringified.splits prod.splits outcome.splits)
  from format_ok [where enc = enc and ot = ot, OF t e] parse_ok_text [where dec = dec, OF p] e p q
  show "\<exists>s d h1. enc data h = Text s \<and> dec s h = (Returned d, h1) \<and>
         format ot enc (Ref a) h = Inr (''[OK] data: '' @ s) \<and>
         parse dec (''[OK] data: '' @ s) h
           = (Returned (Ref (length h1)), h1 @ [ArrayObj [Bool True, Null, d]]) \<and>
         deq (h, data) (h1, d)"
    by blast
next
  assume t: "lookup h a = Some (ArrayObj [Bool False, err, Null])"
    and g: "get_message h err = Some (Str m)"
  show "format ot enc (Ref a) h = Inr (''[ERR] error: '' @ m)"
    using t g by (rule format_err)
  show "parse dec (''[ERR] error: '' @ m) h
        = (Returned (Ref (Suc (length h))),
           h @ [SafeErrorObj m Undefined Undefined, ArrayObj [Bool False, Ref (length h), Null]])"
    by (rule parse_err_text)
qed

theorem format_parse_round_trip_witness:
  "lookup [ArrayObj [Bool True, Null, Number 42]] 0 = Some (ArrayObj [Bool True, Null, Number 42]) \<and>
   lossless int_stringify int_json_parse primitive_equal (Number 42)
     [ArrayObj [Bool True, Null, Number 42]] \<and>
   format object_text int_stringify (Ref 0) [ArrayObj [Bool True, Null, Number 42]]
     = Inr ''[OK] data: 42'' \<and>
   parse int_json_parse ''[OK] data: 42'' [ArrayObj [Bool True, Null, Number 42]]
     = (Returned (Ref 1),
        [ArrayObj [Bool True, Null, Number 42], ArrayObj [Bool True, Null, Number 42]]) \<and>
   lookup [SafeErrorObj ''boom'' (Number 7) (Str ''E1''), ArrayObj [Bool False, Ref 0, Null]] 1
     = Some (ArrayObj [Bool False, Ref 0, Null]) \<and>
   get_message [SafeErrorObj ''boom'' (Number 7) (Str ''E1''), ArrayObj [Bool False, Ref 0, Null]] (Ref 0)
     = Some (Str ''boom'') \<and>
   format object_text int_stringify (Ref 1)
       [SafeErrorObj ''boom'' (Number 7) (Str ''E1''), ArrayObj [Bool False, Ref 0, Null]]
     = Inr ''[ERR] error: boom'' \<and>
   parse int_json_parse ''[ERR] error: boom''
       [SafeErrorObj ''boom'' (Number 7) (Str ''E1''), ArrayObj [Bool False, Ref 0, Null]]
     = (Returned (Ref 3),
        [SafeErrorObj ''boom'' (Number 7) (Str ''E1''), ArrayObj [Bool False, Ref 0, Null],
         SafeErrorObj ''boom'' Undefined Undefined, ArrayObj [Bool False, Ref 2, Null]])"
proof -
  have enc: "\<And>h. int_stringify (Number 42) h = Text ''42''"
    by (simp add: int_stringify_def show_int_def)
  have dec: "\<And>h. int_json_parse ''42'' h = (Returned (Number 42), h)"
    by (simp add: int_json_parse_def read_int_def digit_value_def)
  have a: "lookup [ArrayObj [Bool True, Null, Number 42]] 0 = Some (ArrayObj [Bool True, Null, Number 42])"
    by (simp add: lookup_def)
  have b: "lossless int_stringify int_json_parse primitive_equal (Number 42)
     [ArrayObj [Bool True, Null, Number 42]]"
    by (simp add: lossless_def enc dec primitive_equal_def)
  have c: "lookup [SafeErrorObj ''boom'' (Number 7) (Str ''E1''), ArrayObj [Bool False, Ref 0, Null]] 1
     = Some (ArrayObj [Bool False, Ref 0, Null])"
    by (simp add: lookup_def)
  have d: "get_message [SafeErrorObj ''boom'' (Number 7) (Str ''E1''), ArrayObj [Bool False, Ref 0, Null]] (Ref 0)
     = Some (Str ''boom'')"
    by (simp add: get_message_def lookup_def)
  from a b c d enc dec
    format_parse_round_trip [where h = "[ArrayObj [Bool True, Null, Number 42]]" and a = 0
      and data = "Number 42" and enc = int_stringify and dec = int_json_parse
      and deq = primitive_equal and ot = object_text]
    format_parse_round_trip [where
      h = "[SafeErrorObj ''boom'' (Number 7) (Str ''E1''), ArrayObj [Bool False, Ref 0, Null]]"
      and a = 1 and err = "Ref 0" and m = "''boom''" and enc = int_stringify
      and dec = int_json_parse and ot = object_text]
  show ?thesis by simp
qed

subsection \<open>The integer instance of the host's codec\<close>

text \<open>
  The instance used above at concrete inputs is lossless on every integer-valued number:
  the decimal text of an integer reads back as that integer.
\<close>

lemma digit_value_digit_char: "d < 10 \<Longrightarrow> digit_value (digit_char d) = Some d"
proof -
  assume "d < 10"
  then consider "d = 0" | "d = 1" | "d = 2" | "d = 3" | "d = 4" | "d = 5" | "d = 6" | "d = 7"
    | "d = 8" | "d = 9" by atomize_elim arith
  then show ?thesis by cases (simp_all add: digit_value_def)
qed

lemma digit_char_not_minus: "d < 10 \<Longrightarrow> digit_char d \<noteq> CHR ''-''"
proof -
  assume "d < 10"
  then consider "d = 0" | "d = 1" | "d = 2" | "d = 3" | "d = 4" | "d = 5" | "d = 6" | "d = 7"
    | "d = 8" | "d = 9" by atomize_elim arith
  then show ?thesis by cases simp_all
qed

lemma read_digits_snoc:
  "read_digits acc (cs @ [c]) =
     (case read_digits acc cs of
        Some a \<Rightarrow> (case digit_value c of Some d \<Rightarrow> Some (10 * a + d) | None \<Rightarrow> None)
      | None \<Rightarrow> None)"
  by (induction cs arbitrary: acc) (auto split: option.splits)

declare show_nat.simps [simp del]

lemma read_show_nat: "read_digits 0 (show_nat n) = Some n"
proof (induction n rule: show_nat.induct)
  case (1 n)
  show ?case
  proof (cases "n < 10")
    case True
    then show ?thesis
      by (simp add: show_nat.simps [of n] digit_value_digit_char del: digit_char.simps)
  next
    case False
    with 1 have "read_digits 0 (show_nat (n div 10)) = Some (n div 10)" by simp
    with False show ?thesis
      by (simp add: show_nat.simps [of n] read_digits_snoc digit_value_digit_char
          del: digit_char.simps)
  qed
qed

lemma show_nat_first: "\<exists>c cs. show_nat n = c # cs \<and> c \<noteq> CHR ''-''"
proof (induction n rule: show_nat.induct)
  case (1 n)
  show ?case
  proof (cases "n < 10")
    case True
    then show ?thesis
      by (simp add: show_nat.simps [of n] digit_char_not_minus del: digit_char.simps)
  next
    case False
    with 1 obtain c cs where "show_nat (n div 10) = c # cs" and "c \<noteq> CHR ''-''" by auto
    with False show ?thesis by (simp add: show_nat.simps [of n])
  qed
qed

lemma read_show_int: "read_int (show_int i) = Some i"
proof (cases "i < 0")
  case True
  obtain c cs where "show_nat (nat (- i)) = c # cs" using show_nat_first by blast
  then have "show_nat (nat (- i)) \<noteq> []" by simp
  with True show ?thesis
    using read_show_nat [of "nat (- i)"] by (simp add: read_int_def show_int_def)
next
  case False
  obtain c cs where s: "show_nat (nat i) = c # cs" and c: "c \<noteq> CHR ''-''"
    using show_nat_first by blast
  with False show ?thesis
    using read_show_nat [of "nat i"] by (simp add: read_int_def show_int_def)
qed

lemma int_codec_lossless:
  "lossless int_stringify int_json_parse primitive_equal (Number n) h"
  by (simp add: lossless_def int_stringify_def int_json_parse_def read_show_int primitive_equal_def)

end
